theory Spec2Isabelle
  imports Main "HOL-Library.Word" "HOL-Library.Sublist"
begin

text \<open>
  A model of \<open>script.js\<close>, the script of a page of mathematical formulas: the filter of
  the search box, the collapsible derivation and example sections, the timers, the escape
  key and the search history kept in \<open>localStorage\<close>. Each listener of the script is a
  function on the state of the page; an exception is a value of type \<open>error\<close>.

  The page is taken as the script expects it: the script runs when the search box exists,
  formula cards are not nested in one another, no element is both a category and a formula
  card, and \<open>localStorage\<close> accepts what is written to it. The smooth scrolling of the
  links and the button back to the top do not touch the state modelled here and are left
  out.
\<close>

section \<open>Strings of the host language\<close>

text \<open>
  A JavaScript string is a sequence of 16-bit code units. The string methods the script
  calls compare code units, so the model keeps strings as lists of 16-bit words.
  \<open>ascii\<close> writes a string of 7-bit characters as such a list.
\<close>

type_synonym jsstring = "16 word list"

definition ascii :: "string \<Rightarrow> jsstring" where
  "ascii s = map of_char s"

text \<open>\<open>s.startsWith(t)\<close> and \<open>s.includes(t)\<close>, by comparison of code units.\<close>

fun startsWith :: "jsstring \<Rightarrow> jsstring \<Rightarrow> bool" where
  "startsWith s [] = True"
| "startsWith [] (y # t) = False"
| "startsWith (x # s) (y # t) = (x = y \<and> startsWith s t)"

fun includesStr :: "jsstring \<Rightarrow> jsstring \<Rightarrow> bool" where
  "includesStr [] t = (t = [])"
| "includesStr (x # s) t = (startsWith (x # s) t \<or> includesStr s t)"

text \<open>
  \<open>s.trim()\<close> removes the white space and line terminators of ECMAScript from both
  ends: TAB, LF, VT, FF, CR, SP, NBSP, the space separators U+1680, U+2000 to U+200A,
  U+202F, U+205F and U+3000, the separators U+2028 and U+2029, and U+FEFF.
\<close>

definition isWhiteSpace :: "16 word \<Rightarrow> bool" where
  "isWhiteSpace u \<longleftrightarrow>
     u \<in> {0x9, 0xA, 0xB, 0xC, 0xD, 0x20, 0xA0, 0x1680, 0x2028, 0x2029, 0x202F, 0x205F,
          0x3000, 0xFEFF}
     \<or> (0x2000 \<le> u \<and> u \<le> 0x200A)"

definition trim :: "jsstring \<Rightarrow> jsstring" where
  "trim s = rev (dropWhile isWhiteSpace (rev (dropWhile isWhiteSpace s)))"

section \<open>Values of JSON and the functions of the host\<close>

text \<open>
  The value \<open>JSON.parse\<close> returns. Numbers are IEEE doubles in the host; their type is
  left open as \<open>'n\<close>. Objects are kept as their list of members.
\<close>

datatype 'n json =
    JNull
  | JBool bool
  | JNumber 'n
  | JString jsstring
  | JArray "'n json list"
  | JObject "(jsstring \<times> 'n json) list"

text \<open>
  The library functions whose definition is the host's: \<open>String.prototype.toLowerCase\<close>
  (the case mapping of Unicode), \<open>JSON.parse\<close> (\<open>None\<close> when it throws SyntaxError) and
  \<open>JSON.stringify\<close>. Every function of the script takes them as the parameter \<open>H\<close>.
\<close>

record 'n host =
  toLowerCase :: "jsstring \<Rightarrow> jsstring"
  JSON_parse :: "jsstring \<Rightarrow> 'n json option"
  JSON_stringify :: "'n json \<Rightarrow> jsstring"

datatype error = TypeError | SyntaxError

section \<open>The page\<close>

text \<open>
  The heading \<open>card.querySelector('h4')\<close> of a formula card: the text it was written
  with, the inline styles and the data attribute the script sets, the text of the two
  \<open>span\<close> elements the script appends to it (\<open>None\<close> before they are appended), and
  whether the click listener of lines 119 to 130 is registered on it.
\<close>

record heading =
  h4Text :: jsstring
  cursor :: string
  userSelect :: string
  hasToggle :: bool
  toggleIcon :: "jsstring option"
  exampleIcon :: "jsstring option"
  clickListener :: bool

text \<open>
  An element of class \<open>formula-card\<close>: whether its class list holds \<open>hidden\<close> and
  \<open>derivation\<close>, its first \<open>h4\<close> (\<open>None\<close> when it has none), the text before and after
  that heading, the inline \<open>display\<close> style of its first \<open>.derivation-content\<close>
  (\<open>None\<close> when it has none) and of each \<open>.example-content\<close> whose closest formula
  card it is.
\<close>

record card =
  hidden :: bool
  derivation :: bool
  h4 :: "heading option"
  textBefore :: jsstring
  textAfter :: jsstring
  derivationContent :: "string option"
  exampleContents :: "string list"

text \<open>
  An element of class \<open>category\<close>: whether its class list holds \<open>hidden\<close>, and the
  formula cards below it, as positions in the list \<open>formulaCards\<close>.
\<close>

record category =
  catHidden :: bool
  catCards :: "nat list"

datatype task = SaveHistoryTask | TypesetTask

record timer =
  timerId :: nat
  delay :: nat
  task :: task

datatype listener = HistoryDebounce | FilterPass | Retypeset

text \<open>
  The state the script reads and writes: the value and focus of the search box, the two
  node lists of line 16 and 17, the listeners of the search box for \<open>input\<close> in the
  order of their registration, the item of \<open>localStorage\<close> under \<open>HISTORY_KEY\<close>
  (\<open>None\<close> when \<open>getItem\<close> returns null), the timers that are pending, the handle
  the next \<open>setTimeout\<close> returns, the variable \<open>searchTimeout\<close> (\<open>None\<close> while
  undefined), whether \<open>window.MathJax\<close> is there, and the number of calls of
  \<open>MathJax.typesetPromise\<close> so far.
\<close>

record page =
  searchValue :: jsstring
  searchFocused :: bool
  formulaCards :: "card list"
  categories :: "category list"
  inputListeners :: "listener list"
  storage :: "jsstring option"
  pendingTimers :: "timer list"
  nextTimerId :: nat
  searchTimeout :: "nat option"
  mathJax :: bool
  typesetCalls :: nat

text \<open>\<open>textContent\<close> of the heading and of the card: the text of all descendants, in order.\<close>

definition headingText :: "heading \<Rightarrow> jsstring" where
  "headingText t =
     h4Text t @ (case toggleIcon t of None \<Rightarrow> [] | Some g \<Rightarrow> g)
             @ (case exampleIcon t of None \<Rightarrow> [] | Some g \<Rightarrow> g)"

definition cardText :: "card \<Rightarrow> jsstring" where
  "cardText c =
     textBefore c @ (case h4 c of None \<Rightarrow> [] | Some t \<Rightarrow> headingText t) @ textAfter c"

text \<open>
  \<open>forEach\<close> with a callback that may throw: the elements before the throwing one keep
  what the callback did to them, the throwing one keeps what the callback did before it
  threw, and the rest is not visited.
\<close>

fun forEach :: "('a \<Rightarrow> 'a \<times> error option) \<Rightarrow> 'a list \<Rightarrow> 'a list \<times> error option" where
  "forEach f [] = ([], None)"
| "forEach f (x # xs) =
     (case f x of
        (x', Some e) \<Rightarrow> (x' # xs, Some e)
      | (x', None) \<Rightarrow> (case forEach f xs of (ys, r) \<Rightarrow> (x' # ys, r)))"

section \<open>The filter (lines 24 to 65)\<close>

text \<open>
  The callback of line 33. Reading \<open>textContent\<close> of a missing heading throws TypeError
  before the card is touched.
\<close>

definition filterCard :: "'n host \<Rightarrow> jsstring \<Rightarrow> card \<Rightarrow> card \<times> error option" where
  "filterCard H searchTerm c =
     (case h4 c of
        None \<Rightarrow> (c, Some TypeError)
      | Some t \<Rightarrow>
          let title = toLowerCase H (headingText t);
              content = toLowerCase H (cardText c)
          in if includesStr title searchTerm \<or> includesStr content searchTerm
             then (c\<lparr>hidden := False\<rparr>, None)
             else (c\<lparr>hidden := True\<rparr>, None))"

text \<open>\<open>category.querySelectorAll('.formula-card:not(.hidden)')\<close> and the callback of line 52.\<close>

definition visibleCards :: "card list \<Rightarrow> category \<Rightarrow> nat list" where
  "visibleCards cs g = filter (\<lambda>i. i < length cs \<and> \<not> hidden (cs ! i)) (catCards g)"

definition updateCategory :: "card list \<Rightarrow> category \<Rightarrow> category" where
  "updateCategory cs g =
     (if length (visibleCards cs g) = 0 then g\<lparr>catHidden := True\<rparr>
      else g\<lparr>catHidden := False\<rparr>)"

definition filterListener :: "'n host \<Rightarrow> page \<Rightarrow> page \<times> error option" where
  "filterListener H p =
     (let searchTerm = toLowerCase H (searchValue p)
      in case forEach (filterCard H searchTerm) (formulaCards p) of
           (cs, Some e) \<Rightarrow> (p\<lparr>formulaCards := cs\<rparr>, Some e)
         | (cs, None) \<Rightarrow>
             (p\<lparr>formulaCards := cs, categories := map (updateCategory cs) (categories p)\<rparr>,
              None))"

section \<open>Collapsible sections (lines 94 to 162)\<close>

text \<open>The three literals the script writes into the icons, as code units.\<close>

definition iconDown :: jsstring where
  "iconDown = [0x20, 0xD83D, 0xDD3D]"

definition iconRight :: jsstring where
  "iconRight = [0x20, 0x25B6, 0xFE0F]"

definition iconMemo :: jsstring where
  "iconMemo = [0x20, 0xD83D, 0xDCDD]"

text \<open>
  The callback of line 96, run for the cards of class \<open>derivation\<close>. The content is shown
  first; a card without heading then throws TypeError at line 109.
\<close>

definition setupDerivation :: "card \<Rightarrow> card \<times> error option" where
  "setupDerivation c =
     (case derivationContent c of
        None \<Rightarrow> (c, None)
      | Some d \<Rightarrow>
          let c1 = c\<lparr>derivationContent := Some ''block''\<rparr>
          in case h4 c1 of
               None \<Rightarrow> (c1, Some TypeError)
             | Some t \<Rightarrow>
                 (c1\<lparr>h4 := Some (t\<lparr>cursor := ''pointer'', userSelect := ''none'',
                                    toggleIcon := Some iconDown, clickListener := True\<rparr>)\<rparr>,
                  None))"

text \<open>
  The callback of line 138, for the example contents of one card in turn: each is shown,
  and the heading is marked and given its icon once. No listener is registered.
\<close>

fun setupExamples :: "heading option \<Rightarrow> string list \<Rightarrow> heading option \<times> string list" where
  "setupExamples title [] = (title, [])"
| "setupExamples title (d # ds) =
     (let title' =
        (case title of
           None \<Rightarrow> None
         | Some t \<Rightarrow>
             if \<not> hasToggle t
             then Some (t\<lparr>cursor := ''pointer'', userSelect := ''none'', hasToggle := True,
                         exampleIcon := Some iconMemo\<rparr>)
             else Some t)
      in case setupExamples title' ds of (title'', ds') \<Rightarrow> (title'', ''block'' # ds'))"

definition setupExampleCard :: "card \<Rightarrow> card" where
  "setupExampleCard c =
     (case setupExamples (h4 c) (exampleContents c) of
        (title, ds) \<Rightarrow> c\<lparr>h4 := title, exampleContents := ds\<rparr>)"

text \<open>
  The listener of \<open>DOMContentLoaded\<close> (lines 10 to 178), without the smooth scrolling:
  it registers the filter, sets the derivation cards up, then the example contents, then
  registers the rendering listener when \<open>window.MathJax\<close> is there. An exception ends it.
\<close>

definition domContentLoaded :: "page \<Rightarrow> page \<times> error option" where
  "domContentLoaded p =
     (let p1 = p\<lparr>inputListeners := inputListeners p @ [FilterPass]\<rparr>
      in case forEach (\<lambda>c. if derivation c then setupDerivation c else (c, None))
                (formulaCards p1) of
           (cs, Some e) \<Rightarrow> (p1\<lparr>formulaCards := cs\<rparr>, Some e)
         | (cs, None) \<Rightarrow>
             let p2 = p1\<lparr>formulaCards := map setupExampleCard cs\<rparr>
             in (if mathJax p2
                 then p2\<lparr>inputListeners := inputListeners p2 @ [Retypeset]\<rparr>
                 else p2, None))"

text \<open>
  A click on the heading of a card runs the listeners registered on it: the one of lines
  119 to 130 when \<open>setupDerivation\<close> registered it (the card then has its derivation
  content), and no other.
\<close>

definition titleClick :: "card \<Rightarrow> card" where
  "titleClick c =
     (case h4 c of
        None \<Rightarrow> c
      | Some t \<Rightarrow>
          if \<not> clickListener t then c
          else
            (case derivationContent c of
               None \<Rightarrow> c
             | Some d \<Rightarrow>
                 if d = ''none''
                 then c\<lparr>derivationContent := Some ''block'',
                        h4 := Some (t\<lparr>toggleIcon := Some iconDown\<rparr>)\<rparr>
                 else c\<lparr>derivationContent := Some ''none'',
                        h4 := Some (t\<lparr>toggleIcon := Some iconRight\<rparr>)\<rparr>))"

definition clickTitle :: "nat \<Rightarrow> page \<Rightarrow> page" where
  "clickTitle i p =
     (if i < length (formulaCards p)
      then p\<lparr>formulaCards := (formulaCards p)[i := titleClick (formulaCards p ! i)]\<rparr>
      else p)"

section \<open>Timers\<close>

text \<open>
  \<open>setTimeout\<close> returns a fresh handle and adds the timer to the pending ones;
  \<open>clearTimeout\<close> removes the timer of that handle, if there is one.
\<close>

definition setTimeout :: "task \<Rightarrow> nat \<Rightarrow> page \<Rightarrow> nat \<times> page" where
  "setTimeout k ms p =
     (nextTimerId p,
      p\<lparr>pendingTimers := pendingTimers p @ [\<lparr>timerId = nextTimerId p, delay = ms, task = k\<rparr>],
        nextTimerId := Suc (nextTimerId p)\<rparr>)"

definition clearTimeout :: "nat option \<Rightarrow> page \<Rightarrow> page" where
  "clearTimeout h p =
     (case h of
        None \<Rightarrow> p
      | Some i \<Rightarrow> p\<lparr>pendingTimers := filter (\<lambda>t. timerId t \<noteq> i) (pendingTimers p)\<rparr>)"

text \<open>The listener of lines 170 to 176.\<close>

definition retypesetListener :: "page \<Rightarrow> page" where
  "retypesetListener p = snd (setTimeout TypesetTask 100 p)"

text \<open>The listener of lines 336 to 346.\<close>

definition debounceListener :: "page \<Rightarrow> page" where
  "debounceListener p =
     (case setTimeout SaveHistoryTask 1000 (clearTimeout (searchTimeout p) p) of
        (i, p') \<Rightarrow> p'\<lparr>searchTimeout := Some i\<rparr>)"

text \<open>
  What the history listener relies on: the handles of the pending timers are distinct and
  older than the next handle, and a pending history timer is the one whose handle
  \<open>searchTimeout\<close> holds.
\<close>

definition debounceInv :: "page \<Rightarrow> bool" where
  "debounceInv p \<longleftrightarrow>
     distinct (map timerId (pendingTimers p)) \<and>
     list_all (\<lambda>t. timerId t < nextTimerId p \<and>
                    (task t \<noteq> SaveHistoryTask \<or> searchTimeout p = Some (timerId t)))
       (pendingTimers p)"

section \<open>The search history (lines 293 to 347)\<close>

definition MAX_HISTORY :: nat where
  "MAX_HISTORY = 10"

text \<open>
  \<open>loadHistory\<close>, from the item stored under \<open>HISTORY_KEY\<close>. The test \<open>history ?\<close>
  fails for null and for the empty string; \<open>JSON.parse\<close> may throw.
\<close>

definition loadHistory :: "'n host \<Rightarrow> jsstring option \<Rightarrow> error + 'n json" where
  "loadHistory H item =
     (case item of
        None \<Rightarrow> Inr (JArray [])
      | Some history \<Rightarrow>
          if history = [] then Inr (JArray [])
          else (case JSON_parse H history of
                  None \<Rightarrow> Inl SyntaxError
                | Some v \<Rightarrow> Inr v))"

text \<open>
  \<open>saveHistory\<close>, returning the item stored afterwards. \<open>history.filter\<close> throws
  TypeError when the value loaded is not an array. \<open>item !== term\<close> is false only for a
  string of the same code units.
\<close>

definition saveHistory :: "'n host \<Rightarrow> jsstring \<Rightarrow> jsstring option \<Rightarrow> error + jsstring option" where
  "saveHistory H term item =
     (if trim term = [] then Inr item
      else case loadHistory H item of
             Inl e \<Rightarrow> Inl e
           | Inr (JArray history) \<Rightarrow>
               let history1 = filter (\<lambda>item. item \<noteq> JString term) history;
                   history2 = JString term # history1;
                   history3 = (if length history2 > MAX_HISTORY
                               then take MAX_HISTORY history2 else history2)
               in Inr (Some (JSON_stringify H (JArray history3)))
           | Inr _ \<Rightarrow> Inl TypeError)"

text \<open>Calls of \<open>saveHistory\<close> one after the other, the first term of the list first.\<close>

fun saveAll :: "'n host \<Rightarrow> jsstring list \<Rightarrow> jsstring option \<Rightarrow> error + jsstring option" where
  "saveAll H [] item = Inr item"
| "saveAll H (t # ts) item =
     (case saveHistory H t item of
        Inl e \<Rightarrow> Inl e
      | Inr item' \<Rightarrow> saveAll H ts item')"

text \<open>
  The other side of the comparison for \<open>saveHistory\<close>, in the words of the
  specification: every occurrence equal to the term is removed, the term is put in front,
  and the first ten elements are kept. \<open>recentTerms\<close> is the history the specification
  describes after the terms \<open>ts\<close> were saved in that order: each term once, the most
  recent first, ten at most.
\<close>

definition specSave :: "jsstring \<Rightarrow> 'n json list \<Rightarrow> 'n json list" where
  "specSave term h = take 10 (JString term # removeAll (JString term) h)"

definition recentTerms :: "jsstring list \<Rightarrow> jsstring list" where
  "recentTerms ts = take 10 (rev (remdups ts))"

section \<open>Events\<close>

text \<open>What a timer does when it fires (lines 174 and 342 to 344).\<close>

definition runTask :: "'n host \<Rightarrow> task \<Rightarrow> page \<Rightarrow> page \<times> error option" where
  "runTask H k p =
     (case k of
        TypesetTask \<Rightarrow> (p\<lparr>typesetCalls := Suc (typesetCalls p)\<rparr>, None)
      | SaveHistoryTask \<Rightarrow>
          if trim (searchValue p) \<noteq> []
          then (case saveHistory H (trim (searchValue p)) (storage p) of
                  Inl e \<Rightarrow> (p, Some e)
                | Inr item \<Rightarrow> (p\<lparr>storage := item\<rparr>, None))
          else (p, None))"

text \<open>The pending timer of handle \<open>i\<close> fires: it is no longer pending, and its task runs.\<close>

definition fireTimer :: "'n host \<Rightarrow> nat \<Rightarrow> page \<Rightarrow> page \<times> error option" where
  "fireTimer H i p =
     (case find (\<lambda>t. timerId t = i) (pendingTimers p) of
        None \<Rightarrow> (p, None)
      | Some t \<Rightarrow>
          runTask H (task t)
            (p\<lparr>pendingTimers := filter (\<lambda>t. timerId t \<noteq> i) (pendingTimers p)\<rparr>))"

text \<open>
  An \<open>input\<close> event on the search box runs its listeners in the order of registration.
  An exception in one listener is reported and does not stop the following ones.
\<close>

definition runListener :: "'n host \<Rightarrow> listener \<Rightarrow> page \<Rightarrow> page \<times> error option" where
  "runListener H l p =
     (case l of
        HistoryDebounce \<Rightarrow> (debounceListener p, None)
      | FilterPass \<Rightarrow> filterListener H p
      | Retypeset \<Rightarrow> (retypesetListener p, None))"

fun dispatch :: "'n host \<Rightarrow> listener list \<Rightarrow> page \<Rightarrow> page \<times> error list" where
  "dispatch H [] p = (p, [])"
| "dispatch H (l # ls) p =
     (case runListener H l p of
        (p', r) \<Rightarrow>
          (case dispatch H ls p' of
             (p'', es) \<Rightarrow> (p'', (case r of None \<Rightarrow> [] | Some e \<Rightarrow> [e]) @ es)))"

definition dispatchInput :: "'n host \<Rightarrow> page \<Rightarrow> page \<times> error list" where
  "dispatchInput H p = dispatch H (inputListeners p) p"

text \<open>The user changes the text of the search box to \<open>v\<close>.\<close>

definition typeInput :: "'n host \<Rightarrow> jsstring \<Rightarrow> page \<Rightarrow> page \<times> error list" where
  "typeInput H v p = dispatchInput H (p\<lparr>searchValue := v\<rparr>)"

text \<open>The script runs (the history part, line 336), then the document is loaded.\<close>

definition scriptRun :: "page \<Rightarrow> page" where
  "scriptRun p = p\<lparr>inputListeners := inputListeners p @ [HistoryDebounce]\<rparr>"

text \<open>The listener of \<open>keydown\<close> (lines 267 to 286).\<close>

record keyEvent =
  key :: jsstring
  ctrlKey :: bool
  metaKey :: bool

definition keydown :: "'n host \<Rightarrow> keyEvent \<Rightarrow> page \<Rightarrow> page \<times> error list" where
  "keydown H e p =
     (let p1 = (if (ctrlKey e \<or> metaKey e) \<and> key e = ascii ''k''
                then p\<lparr>searchFocused := True\<rparr> else p)
      in if key e = ascii ''Escape''
         then (if searchValue p1 \<noteq> []
               then dispatchInput H (p1\<lparr>searchValue := []\<rparr>)
               else (p1, []))
         else (p1, []))"

text \<open>
  The other side of the comparison for the escape key, in the words of the
  specification: the field is emptied by hand and an input event is dispatched.
\<close>

definition manualClear :: "'n host \<Rightarrow> page \<Rightarrow> page \<times> error list" where
  "manualClear H p = dispatchInput H (p\<lparr>searchValue := []\<rparr>)"

section \<open>An executable host\<close>

text \<open>
  The theorems below hold for every host \<open>H\<close>. To run the script on concrete pages, this
  section gives one host: the case mapping on 7-bit characters, and a reader and writer of
  JSON texts in which a number is kept as its literal.
\<close>

text \<open>\<open>toLowerCase\<close> on strings of 7-bit characters.\<close>

definition asciiLower :: "jsstring \<Rightarrow> jsstring" where
  "asciiLower s = map (\<lambda>u. if 0x41 \<le> u \<and> u \<le> 0x5A then u + 0x20 else u) s"

text \<open>
  \<open>JSON.parse\<close>: string literals with their escapes, numbers, the three names, arrays
  and objects, with white space between the tokens. The first argument of \<open>parseValue\<close>
  bounds the depth of the recursion.
\<close>

definition hexValue :: "16 word \<Rightarrow> nat option" where
  "hexValue u =
     (if 0x30 \<le> u \<and> u \<le> 0x39 then Some (unat u - 0x30)
      else if 0x41 \<le> u \<and> u \<le> 0x46 then Some (unat u - 0x37)
      else if 0x61 \<le> u \<and> u \<le> 0x66 then Some (unat u - 0x57)
      else None)"

definition hex4 :: "16 word \<Rightarrow> 16 word \<Rightarrow> 16 word \<Rightarrow> 16 word \<Rightarrow> 16 word option" where
  "hex4 a b c d =
     (case (hexValue a, hexValue b, hexValue c, hexValue d) of
        (Some x3, Some x2, Some x1, Some x0) \<Rightarrow>
          Some (of_nat (x3 * 0x1000 + x2 * 0x100 + x1 * 0x10 + x0))
      | _ \<Rightarrow> None)"

definition unescape :: "16 word \<Rightarrow> 16 word option" where
  "unescape e =
     (if e = 0x22 \<or> e = 0x5C \<or> e = 0x2F then Some e
      else if e = 0x62 then Some 0x8
      else if e = 0x66 then Some 0xC
      else if e = 0x6E then Some 0xA
      else if e = 0x72 then Some 0xD
      else if e = 0x74 then Some 0x9
      else None)"

fun parseChars :: "jsstring \<Rightarrow> (jsstring \<times> jsstring) option" where
  "parseChars [] = None"
| "parseChars (c # s) =
     (if c = 0x22 then Some ([], s)
      else if c = 0x5C then
        (case s of
           [] \<Rightarrow> None
         | e # s1 \<Rightarrow>
             if e = 0x75 then
               (case s1 of
                  a # b # c # d # s2 \<Rightarrow>
                    (case hex4 a b c d of
                       None \<Rightarrow> None
                     | Some u \<Rightarrow> map_option (\<lambda>(v, r). (u # v, r)) (parseChars s2))
                | _ \<Rightarrow> None)
             else
               (case unescape e of
                  None \<Rightarrow> None
                | Some u \<Rightarrow> map_option (\<lambda>(v, r). (u # v, r)) (parseChars s1)))
      else if c < 0x20 then None
      else map_option (\<lambda>(v, r). (c # v, r)) (parseChars s))"

definition isJsonSpace :: "16 word \<Rightarrow> bool" where
  "isJsonSpace u \<longleftrightarrow> u = 0x20 \<or> u = 0x9 \<or> u = 0xA \<or> u = 0xD"

definition isDigit :: "16 word \<Rightarrow> bool" where
  "isDigit u \<longleftrightarrow> 0x30 \<le> u \<and> u \<le> 0x39"

text \<open>
  A number, by the grammar \<open>-? (0 | [1-9][0-9]*) (. [0-9]+)? ([eE] [+-]? [0-9]+)?\<close>;
  the model keeps its text.
\<close>

definition parseNumber :: "jsstring \<Rightarrow> (jsstring \<times> jsstring) option" where
  "parseNumber s =
     (let (sign, s1) = (case s of u # r \<Rightarrow> if u = 0x2D then ([u], r) else ([], s) | [] \<Rightarrow> ([], s));
          ds = takeWhile isDigit s1; s2 = dropWhile isDigit s1
      in if ds = [] \<or> (hd ds = 0x30 \<and> length ds > 1 ) then None
         else
           let (frac, s3) =
                 (case s2 of
                    u # r \<Rightarrow> if u = 0x2E then (u # takeWhile isDigit r, dropWhile isDigit r)
                             else ([], s2)
                  | [] \<Rightarrow> ([], s2))
           in if length frac = 1 then None
              else
                let (ex, s4) =
                      (case s3 of
                         u # r \<Rightarrow>
                           if u = 0x65 \<or> u = 0x45 then
                             (case r of
                                g # r' \<Rightarrow>
                                  if g = 0x2B \<or> g = 0x2D
                                  then (u # g # takeWhile isDigit r', dropWhile isDigit r')
                                  else (u # takeWhile isDigit r, dropWhile isDigit r)
                              | [] \<Rightarrow> ([u], []))
                           else ([], s3)
                       | [] \<Rightarrow> ([], s3))
                in if ex \<noteq> [] \<and> \<not> isDigit (last ex) then None
                   else Some (sign @ ds @ frac @ ex, s4))"

fun parseValue :: "nat \<Rightarrow> jsstring \<Rightarrow> (jsstring json \<times> jsstring) option"
and parseElements :: "nat \<Rightarrow> jsstring \<Rightarrow> (jsstring json list \<times> jsstring) option"
and parseMembers :: "nat \<Rightarrow> jsstring \<Rightarrow> ((jsstring \<times> jsstring json) list \<times> jsstring) option"
where
  "parseValue 0 s = None"
| "parseValue (Suc n) s =
     (case dropWhile isJsonSpace s of
        [] \<Rightarrow> None
      | c # r \<Rightarrow>
          if c = 0x22 then map_option (\<lambda>(v, r'). (JString v, r')) (parseChars r)
          else if c = 0x5B then
            (case dropWhile isJsonSpace r of
               [] \<Rightarrow> None
             | d # r1 \<Rightarrow>
                 if d = 0x5D then Some (JArray [], r1)
                 else map_option (\<lambda>(vs, r'). (JArray vs, r')) (parseElements n r))
          else if c = 0x7B then
            (case dropWhile isJsonSpace r of
               [] \<Rightarrow> None
             | d # r1 \<Rightarrow>
                 if d = 0x7D then Some (JObject [], r1)
                 else map_option (\<lambda>(ms, r'). (JObject ms, r')) (parseMembers n r))
          else if startsWith (c # r) (ascii ''null'') then Some (JNull, drop 4 (c # r))
          else if startsWith (c # r) (ascii ''true'') then Some (JBool True, drop 4 (c # r))
          else if startsWith (c # r) (ascii ''false'') then Some (JBool False, drop 5 (c # r))
          else map_option (\<lambda>(v, r'). (JNumber v, r')) (parseNumber (c # r)))"
| "parseElements 0 s = None"
| "parseElements (Suc n) s =
     (case parseValue n s of
        None \<Rightarrow> None
      | Some (v, r) \<Rightarrow>
          (case dropWhile isJsonSpace r of
             [] \<Rightarrow> None
           | c # r1 \<Rightarrow>
               if c = 0x5D then Some ([v], r1)
               else if c = 0x2C then map_option (\<lambda>(vs, r'). (v # vs, r')) (parseElements n r1)
               else None))"
| "parseMembers 0 s = None"
| "parseMembers (Suc n) s =
     (case dropWhile isJsonSpace s of
        [] \<Rightarrow> None
      | q # r0 \<Rightarrow>
          if q \<noteq> 0x22 then None
          else
            (case parseChars r0 of
               None \<Rightarrow> None
             | Some (k, r1) \<Rightarrow>
                 (case dropWhile isJsonSpace r1 of
                    [] \<Rightarrow> None
                  | c # r2 \<Rightarrow>
                      if c \<noteq> 0x3A then None
                      else
                        (case parseValue n r2 of
                           None \<Rightarrow> None
                         | Some (v, r3) \<Rightarrow>
                             (case dropWhile isJsonSpace r3 of
                                [] \<Rightarrow> None
                              | d # r4 \<Rightarrow>
                                  if d = 0x7D then Some ([(k, v)], r4)
                                  else if d = 0x2C
                                  then map_option (\<lambda>(ms, r'). ((k, v) # ms, r')) (parseMembers n r4)
                                  else None)))))"

definition parseJSON :: "jsstring \<Rightarrow> jsstring json option" where
  "parseJSON s =
     (case parseValue (Suc (length s)) s of
        None \<Rightarrow> None
      | Some (v, r) \<Rightarrow> if dropWhile isJsonSpace r = [] then Some v else None)"


text \<open>
  \<open>JSON.stringify\<close>: a string is quoted with the short escapes, and \<open>\\u\<close> with four
  digits for the other control characters and for a surrogate without its partner.
\<close>

definition hexDigit :: "nat \<Rightarrow> 16 word" where
  "hexDigit n = (if n < 10 then of_nat (0x30 + n) else of_nat (0x57 + n))"

definition unicodeEscape :: "16 word \<Rightarrow> jsstring" where
  "unicodeEscape u =
     [0x5C, 0x75, hexDigit (unat u div 0x1000 mod 0x10), hexDigit (unat u div 0x100 mod 0x10),
      hexDigit (unat u div 0x10 mod 0x10), hexDigit (unat u mod 0x10)]"

definition isLeadSurrogate :: "16 word \<Rightarrow> bool" where
  "isLeadSurrogate u \<longleftrightarrow> 0xD800 \<le> u \<and> u \<le> 0xDBFF"

definition isTrailSurrogate :: "16 word \<Rightarrow> bool" where
  "isTrailSurrogate u \<longleftrightarrow> 0xDC00 \<le> u \<and> u \<le> 0xDFFF"

fun quoteChars :: "jsstring \<Rightarrow> jsstring" where
  "quoteChars [] = []"
| "quoteChars (c # s) =
     (if c = 0x22 then [0x5C, 0x22] @ quoteChars s
      else if c = 0x5C then [0x5C, 0x5C] @ quoteChars s
      else if c = 0x8 then [0x5C, 0x62] @ quoteChars s
      else if c = 0xC then [0x5C, 0x66] @ quoteChars s
      else if c = 0xA then [0x5C, 0x6E] @ quoteChars s
      else if c = 0xD then [0x5C, 0x72] @ quoteChars s
      else if c = 0x9 then [0x5C, 0x74] @ quoteChars s
      else if c < 0x20 then unicodeEscape c @ quoteChars s
      else if isLeadSurrogate c then
        (case s of
           [] \<Rightarrow> unicodeEscape c
         | d # s' \<Rightarrow>
             if isTrailSurrogate d then c # d # quoteChars s'
             else unicodeEscape c @ quoteChars s)
      else if isTrailSurrogate c then unicodeEscape c @ quoteChars s
      else c # quoteChars s)"

definition quoteJSON :: "jsstring \<Rightarrow> jsstring" where
  "quoteJSON s = 0x22 # quoteChars s @ [0x22]"

fun joinComma :: "jsstring list \<Rightarrow> jsstring" where
  "joinComma [] = []"
| "joinComma [x] = x"
| "joinComma (x # y # zs) = x @ 0x2C # joinComma (y # zs)"

fun stringifyJSON :: "jsstring json \<Rightarrow> jsstring" where
  "stringifyJSON JNull = ascii ''null''"
| "stringifyJSON (JBool b) = (if b then ascii ''true'' else ascii ''false'')"
| "stringifyJSON (JNumber n) = n"
| "stringifyJSON (JString s) = quoteJSON s"
| "stringifyJSON (JArray vs) = 0x5B # joinComma (map stringifyJSON vs) @ [0x5D]"
| "stringifyJSON (JObject ms) =
     0x7B # joinComma (map (\<lambda>(k, v). quoteJSON k @ 0x3A # stringifyJSON v) ms) @ [0x7D]"

text \<open>The host of the concrete scenarios.\<close>

definition modelHost :: "jsstring host" where
  "modelHost = \<lparr>toLowerCase = asciiLower, JSON_parse = parseJSON, JSON_stringify = stringifyJSON\<rparr>"

section \<open>A page for the concrete scenarios\<close>

text \<open>
  A heading and a card as the page has them before the script runs, and a page of four
  cards in three categories: two plain cards, a card of class \<open>derivation\<close> with a
  derivation content, and a card with one example content. \<open>readyPage\<close> is that page
  after the script has run and the document was loaded.
\<close>

definition plainHeading :: "jsstring \<Rightarrow> heading" where
  "plainHeading s =
     \<lparr>h4Text = s, cursor = [], userSelect = [], hasToggle = False, toggleIcon = None,
      exampleIcon = None, clickListener = False\<rparr>"

definition plainCard :: "jsstring \<Rightarrow> jsstring \<Rightarrow> card" where
  "plainCard title body =
     \<lparr>hidden = False, derivation = False, h4 = Some (plainHeading title), textBefore = [],
      textAfter = body, derivationContent = None, exampleContents = []\<rparr>"

definition demoPage :: page where
  "demoPage =
     \<lparr>searchValue = [], searchFocused = False,
      formulaCards =
        [plainCard (ascii ''Sine Rule'') (ascii ''a / sin A = 2R''),
         plainCard (ascii ''Law of Tangents'') (ascii ''tan''),
         (plainCard (ascii ''Quadratic Formula'') (ascii ''x''))
           \<lparr>derivation := True, derivationContent := Some []\<rparr>,
         (plainCard (ascii ''Heron'') (ascii ''S''))\<lparr>exampleContents := [[]]\<rparr>],
      categories =
        [\<lparr>catHidden = False, catCards = [0]\<rparr>, \<lparr>catHidden = False, catCards = [1]\<rparr>,
         \<lparr>catHidden = False, catCards = [2, 3]\<rparr>],
      inputListeners = [], storage = None, pendingTimers = [], nextTimerId = 1,
      searchTimeout = None, mathJax = True, typesetCalls = 0\<rparr>"

definition readyPage :: page where
  "readyPage = fst (domContentLoaded (scriptRun demoPage))"

text \<open>Eleven distinct search terms.\<close>

definition elevenTerms :: "jsstring list" where
  "elevenTerms = map ascii [''a'', ''b'', ''c'', ''d'', ''e'', ''f'', ''g'', ''h'', ''i'', ''j'', ''k'']"

definition escapeKey :: keyEvent where
  "escapeKey = \<lparr>key = ascii ''Escape'', ctrlKey = False, metaKey = False\<rparr>"

section \<open>Substrings\<close>

lemma startsWith_prefix: "startsWith s t \<longleftrightarrow> prefix t s"
  by (induction s t rule: startsWith.induct) auto

lemma includesStr_sublist: "includesStr s t \<longleftrightarrow> sublist t s"
  by (induction s) (auto simp: startsWith_prefix sublist_Cons_right)

lemma includesStr_Nil [simp]: "includesStr s []"
  by (simp add: includesStr_sublist)

section \<open>The filter pass\<close>

lemma forEach_no_throw:
  "\<forall>x\<in>set xs. snd (f x) = None \<Longrightarrow> forEach f xs = (map (\<lambda>x. fst (f x)) xs, None)"
  by (induction xs) (auto split: prod.splits option.splits)

lemma forEach_frame:
  "(\<And>x. g (fst (f x)) = g x) \<Longrightarrow> map g (fst (forEach f xs)) = map g xs"
proof (induction xs)
  case Nil
  then show ?case by simp
next
  case (Cons x xs)
  obtain x' r where fx: "f x = (x', r)" by (cases "f x")
  with Cons.prems [of x] have gx: "g x' = g x" by simp
  show ?case
  proof (cases r)
    case None
    with fx gx Cons show ?thesis by (auto split: prod.splits)
  next
    case (Some e)
    with fx gx show ?thesis by simp
  qed
qed

lemma filterCard_fst:
  "h4 c = Some t \<Longrightarrow>
   filterCard H q c =
     (c\<lparr>hidden := \<not> (sublist q (toLowerCase H (headingText t))
                      \<or> sublist q (toLowerCase H (cardText c)))\<rparr>, None)"
  by (simp add: filterCard_def Let_def includesStr_sublist)

lemma filterCard_frame: "(fst (filterCard H q c))\<lparr>hidden := b\<rparr> = c\<lparr>hidden := b\<rparr>"
  by (simp add: filterCard_def Let_def split: option.splits)

lemma filterCard_no_throw: "h4 c \<noteq> None \<Longrightarrow> snd (filterCard H q c) = None"
  by (auto simp: filterCard_def Let_def split: option.splits)

lemma filterListener_titled:
  assumes "\<forall>c\<in>set (formulaCards p). h4 c \<noteq> None"
  shows "filterListener H p =
     (let cs = map (\<lambda>c. fst (filterCard H (toLowerCase H (searchValue p)) c)) (formulaCards p)
      in (p\<lparr>formulaCards := cs, categories := map (updateCategory cs) (categories p)\<rparr>, None))"
  using assms by (simp add: filterListener_def Let_def forEach_no_throw filterCard_no_throw)

text \<open>
  Claim C1. When every card has its heading, the filter pass for the query \<open>q\<close> ends
  without exception, and a card is visible afterwards exactly when the query in lower case
  is a substring of the card's title in lower case or of its full text in lower case. For
  the empty query every card is visible (the lower case of the empty string is empty).
\<close>

theorem filter_entry_visibility:
  assumes "\<forall>c\<in>set (formulaCards p). h4 c \<noteq> None"
    and "filterListener H (p\<lparr>searchValue := q\<rparr>) = (p', r)"
  shows "r = None \<and> length (formulaCards p') = length (formulaCards p) \<and>
     (\<forall>i<length (formulaCards p).
        (\<not> hidden (formulaCards p' ! i)) =
        (sublist (toLowerCase H q) (toLowerCase H (headingText (the (h4 (formulaCards p ! i)))))
         \<or> sublist (toLowerCase H q) (toLowerCase H (cardText (formulaCards p ! i))))) \<and>
     (q = [] \<longrightarrow> toLowerCase H [] = [] \<longrightarrow> (\<forall>c\<in>set (formulaCards p'). \<not> hidden c))"
proof -
  let ?q = "toLowerCase H q"
  let ?cs = "map (\<lambda>c. fst (filterCard H ?q c)) (formulaCards p)"
  from assms(1) have "\<forall>c\<in>set (formulaCards (p\<lparr>searchValue := q\<rparr>)). h4 c \<noteq> None" by simp
  from filterListener_titled [OF this, of H] assms(2)
  have r: "r = None" and p': "formulaCards p' = ?cs"
    by (auto simp: Let_def)
  have vis: "(\<not> hidden (?cs ! i)) =
        (sublist ?q (toLowerCase H (headingText (the (h4 (formulaCards p ! i)))))
         \<or> sublist ?q (toLowerCase H (cardText (formulaCards p ! i))))"
    if "i < length (formulaCards p)" for i
  proof -
    from that assms(1) obtain t where "h4 (formulaCards p ! i) = Some t"
      by (metis nth_mem not_None_eq)
    with that show ?thesis by (simp add: filterCard_fst)
  qed
  have all: "\<forall>c\<in>set ?cs. \<not> hidden c" if "q = []" "toLowerCase H [] = []"
  proof
    fix c assume "c \<in> set ?cs"
    then obtain i where "i < length (formulaCards p)" "c = ?cs ! i"
      by (metis in_set_conv_nth length_map)
    with vis [of i] that show "\<not> hidden c" by simp
  qed
  from r p' vis all show ?thesis by simp
qed

lemma updateCategory_simps:
  "catCards (updateCategory cs g) = catCards g"
  "catHidden (updateCategory cs g) = (\<forall>i\<in>set (catCards g). i < length cs \<longrightarrow> hidden (cs ! i))"
  "(updateCategory cs g)\<lparr>catHidden := b\<rparr> = g\<lparr>catHidden := b\<rparr>"
  by (auto simp: updateCategory_def visibleCards_def filter_empty_conv)

text \<open>
  Claim C6. When every card has its heading, a category is hidden after the filter pass
  exactly when every card in it is hidden after that pass, and visible exactly when one of
  its cards is visible: the categories are computed from the new visibility of the cards.
\<close>

theorem category_visibility:
  assumes "\<forall>c\<in>set (formulaCards p). h4 c \<noteq> None"
    and "\<forall>g\<in>set (categories p). \<forall>i\<in>set (catCards g). i < length (formulaCards p)"
    and "filterListener H p = (p', r)"
  shows "r = None \<and> length (categories p') = length (categories p) \<and>
     (\<forall>k<length (categories p).
        catCards (categories p' ! k) = catCards (categories p ! k) \<and>
        catHidden (categories p' ! k) =
          (\<forall>i\<in>set (catCards (categories p ! k)). hidden (formulaCards p' ! i)) \<and>
        (\<not> catHidden (categories p' ! k)) =
          (\<exists>i\<in>set (catCards (categories p ! k)). \<not> hidden (formulaCards p' ! i)))"
proof -
  let ?cs = "map (\<lambda>c. fst (filterCard H (toLowerCase H (searchValue p)) c)) (formulaCards p)"
  from filterListener_titled [OF assms(1), of H] assms(3)
  have r: "r = None" and cs: "formulaCards p' = ?cs"
    and gs: "categories p' = map (updateCategory ?cs) (categories p)"
    by (auto simp: Let_def)
  have "catHidden (updateCategory ?cs (categories p ! k)) =
          (\<forall>i\<in>set (catCards (categories p ! k)). hidden (?cs ! i))"
    if "k < length (categories p)" for k
  proof -
    from that assms(2) have "\<forall>i\<in>set (catCards (categories p ! k)). i < length ?cs"
      using nth_mem by fastforce
    then show ?thesis by (auto simp: updateCategory_simps)
  qed
  with r cs gs show ?thesis by (simp add: updateCategory_simps)
qed

text \<open>
  Claim C9. The filter listener changes nothing but the class \<open>hidden\<close> of cards and
  categories: the stored history, the display style of every derivation and example
  content, the cards and categories up to that class and their order, and the rest of the
  page are as before, also when the pass ends with an exception.
\<close>

theorem filter_frame:
  "storage (fst (filterListener H p)) = storage p \<and>
   map derivationContent (formulaCards (fst (filterListener H p))) =
     map derivationContent (formulaCards p) \<and>
   map exampleContents (formulaCards (fst (filterListener H p))) =
     map exampleContents (formulaCards p) \<and>
   map (\<lambda>c. c\<lparr>hidden := False\<rparr>) (formulaCards (fst (filterListener H p))) =
     map (\<lambda>c. c\<lparr>hidden := False\<rparr>) (formulaCards p) \<and>
   map (\<lambda>g. g\<lparr>catHidden := False\<rparr>) (categories (fst (filterListener H p))) =
     map (\<lambda>g. g\<lparr>catHidden := False\<rparr>) (categories p) \<and>
   (fst (filterListener H p))\<lparr>formulaCards := [], categories := []\<rparr> =
     p\<lparr>formulaCards := [], categories := []\<rparr>"
proof -
  let ?f = "filterCard H (toLowerCase H (searchValue p))"
  obtain cs r where fe: "forEach ?f (formulaCards p) = (cs, r)"
    by (cases "forEach ?f (formulaCards p)")
  have cards: "formulaCards (fst (filterListener H p)) = cs"
    using fe by (simp add: filterListener_def Let_def split: option.splits)
  have cats: "map (\<lambda>g. g\<lparr>catHidden := False\<rparr>) (categories (fst (filterListener H p))) =
     map (\<lambda>g. g\<lparr>catHidden := False\<rparr>) (categories p)"
    using fe by (simp add: filterListener_def Let_def updateCategory_simps split: option.splits)
  have rest: "(fst (filterListener H p))\<lparr>formulaCards := [], categories := []\<rparr> =
     p\<lparr>formulaCards := [], categories := []\<rparr>"
    using fe by (simp add: filterListener_def Let_def split: option.splits)
  have st: "storage (fst (filterListener H p)) = storage p"
    using fe by (simp add: filterListener_def Let_def split: option.splits)
  have der: "derivationContent (fst (?f c)) = derivationContent c" for c
    by (simp add: filterCard_def Let_def split: option.splits)
  have ex: "exampleContents (fst (?f c)) = exampleContents c" for c
    by (simp add: filterCard_def Let_def split: option.splits)
  from forEach_frame [of derivationContent ?f, OF der, of "formulaCards p"]
       forEach_frame [of exampleContents ?f, OF ex, of "formulaCards p"]
       forEach_frame [of "\<lambda>c. c\<lparr>hidden := False\<rparr>" ?f, OF filterCard_frame, of "formulaCards p"]
       fe cards cats rest st
  show ?thesis
    by simp
qed

text \<open>
  Claim C7. The escape key on a search box that is not empty gives the state, and the
  reported errors, of emptying the box by hand and dispatching an input event; on an
  empty search box it changes nothing.
\<close>

theorem escape_clears_like_manual_input:
  assumes "key e = ascii ''Escape''"
  shows "(searchValue p \<noteq> [] \<longrightarrow> keydown H e p = manualClear H p) \<and>
         (searchValue p = [] \<longrightarrow> keydown H e p = (p, []))"
  using assms by (simp add: keydown_def manualClear_def ascii_def)


lemma readyPage_eq:
  "readyPage =
     \<lparr>searchValue = [], searchFocused = False,
      formulaCards =
        [plainCard (ascii ''Sine Rule'') (ascii ''a / sin A = 2R''),
         plainCard (ascii ''Law of Tangents'') (ascii ''tan''),
         (plainCard (ascii ''Quadratic Formula'') (ascii ''x''))
           \<lparr>derivation := True, derivationContent := Some ''block'',
            h4 := Some ((plainHeading (ascii ''Quadratic Formula''))
                   \<lparr>cursor := ''pointer'', userSelect := ''none'',
                    toggleIcon := Some iconDown, clickListener := True\<rparr>)\<rparr>,
         (plainCard (ascii ''Heron'') (ascii ''S''))
           \<lparr>exampleContents := [''block''],
            h4 := Some ((plainHeading (ascii ''Heron''))
                   \<lparr>cursor := ''pointer'', userSelect := ''none'', hasToggle := True,
                    exampleIcon := Some iconMemo\<rparr>)\<rparr>],
      categories =
        [\<lparr>catHidden = False, catCards = [0]\<rparr>, \<lparr>catHidden = False, catCards = [1]\<rparr>,
         \<lparr>catHidden = False, catCards = [2, 3]\<rparr>],
      inputListeners = [HistoryDebounce, FilterPass, Retypeset], storage = None,
      pendingTimers = [], nextTimerId = 1, searchTimeout = None, mathJax = True,
      typesetCalls = 0\<rparr>"
  by (simp add: readyPage_def demoPage_def domContentLoaded_def scriptRun_def
        setupDerivation_def setupExampleCard_def plainCard_def plainHeading_def Let_def)

lemma readyPage_filter_SIN:
  "map hidden (formulaCards (fst (filterListener modelHost
        (readyPage\<lparr>searchValue := ascii ''SIN''\<rparr>)))) = [False, True, True, True]"
  "map catHidden (categories (fst (filterListener modelHost
        (readyPage\<lparr>searchValue := ascii ''SIN''\<rparr>)))) = [False, True, True]"
  by (simp_all add: readyPage_eq filterListener_def filterCard_def Let_def modelHost_def
        asciiLower_def ascii_def headingText_def cardText_def plainCard_def plainHeading_def
        updateCategory_def visibleCards_def iconDown_def iconMemo_def)

lemma readyPage_titled: "\<forall>c\<in>set (formulaCards readyPage). h4 c \<noteq> None"
  by (simp add: readyPage_eq plainCard_def)

lemma readyPage_lengths:
  "length (formulaCards readyPage) = 4" "length (categories readyPage) = 3"
  by (simp_all add: readyPage_eq)

theorem filter_entry_visibility_witness:
  "list_all (\<lambda>c. h4 c \<noteq> None) (formulaCards readyPage) \<and>
   map hidden (formulaCards (fst (filterListener modelHost
        (readyPage\<lparr>searchValue := ascii ''SIN''\<rparr>)))) = [False, True, True, True] \<and>
   (sublist (toLowerCase modelHost (ascii ''SIN''))
        (toLowerCase modelHost (headingText (the (h4 (formulaCards readyPage ! 0)))))
    \<or> sublist (toLowerCase modelHost (ascii ''SIN''))
        (toLowerCase modelHost (cardText (formulaCards readyPage ! 0)))) \<and>
   \<not> (sublist (toLowerCase modelHost (ascii ''SIN''))
        (toLowerCase modelHost (headingText (the (h4 (formulaCards readyPage ! 1)))))
    \<or> sublist (toLowerCase modelHost (ascii ''SIN''))
        (toLowerCase modelHost (cardText (formulaCards readyPage ! 1))))"
proof -
  let ?p = "readyPage\<lparr>searchValue := ascii ''SIN''\<rparr>"
  let ?p' = "fst (filterListener modelHost ?p)"
  have e: "filterListener modelHost ?p = (?p', snd (filterListener modelHost ?p))"
    by simp
  note T = filter_entry_visibility [OF readyPage_titled e]
  from T have len: "length (formulaCards ?p') = length (formulaCards readyPage)"
    by blast
  from T have vis: "\<And>i. i < length (formulaCards readyPage) \<Longrightarrow>
        (\<not> hidden (formulaCards ?p' ! i)) =
        (sublist (toLowerCase modelHost (ascii ''SIN''))
           (toLowerCase modelHost (headingText (the (h4 (formulaCards readyPage ! i)))))
         \<or> sublist (toLowerCase modelHost (ascii ''SIN''))
           (toLowerCase modelHost (cardText (formulaCards readyPage ! i))))"
    by blast
  have "hidden (formulaCards ?p' ! 0) = map hidden (formulaCards ?p') ! 0"
       "hidden (formulaCards ?p' ! 1) = map hidden (formulaCards ?p') ! 1"
    using len by (simp_all add: readyPage_lengths)
  then have "\<not> hidden (formulaCards ?p' ! 0)" "hidden (formulaCards ?p' ! 1)"
    by (simp_all add: readyPage_filter_SIN)
  with vis [of 0] vis [of 1] readyPage_titled readyPage_filter_SIN(1) show ?thesis
    by (simp add: readyPage_lengths list_all_iff)
qed

lemma readyPage_wf:
  "\<forall>g\<in>set (categories readyPage). \<forall>i\<in>set (catCards g). i < length (formulaCards readyPage)"
  by (simp add: readyPage_eq)

theorem category_visibility_witness:
  "list_all (\<lambda>c. h4 c \<noteq> None) (formulaCards readyPage) \<and>
   list_all (\<lambda>g. list_all (\<lambda>i. i < length (formulaCards readyPage)) (catCards g))
     (categories readyPage) \<and>
   map hidden (formulaCards (fst (filterListener modelHost
        (readyPage\<lparr>searchValue := ascii ''SIN''\<rparr>)))) = [False, True, True, True] \<and>
   map catHidden (categories (fst (filterListener modelHost
        (readyPage\<lparr>searchValue := ascii ''SIN''\<rparr>)))) = [False, True, True] \<and>
   map catCards (categories readyPage) = [[0], [1], [2, 3]] \<and>
   snd (filterListener modelHost (readyPage\<lparr>searchValue := ascii ''SIN''\<rparr>)) = None"
proof -
  let ?p = "readyPage\<lparr>searchValue := ascii ''SIN''\<rparr>"
  have t: "\<forall>c\<in>set (formulaCards ?p). h4 c \<noteq> None"
    using readyPage_titled by simp
  have w: "\<forall>g\<in>set (categories ?p). \<forall>i\<in>set (catCards g). i < length (formulaCards ?p)"
    using readyPage_wf by simp
  have e: "filterListener modelHost ?p = (fst (filterListener modelHost ?p), snd (filterListener modelHost ?p))"
    by simp
  from category_visibility [OF t w e]
  have "snd (filterListener modelHost ?p) = None"
    by blast
  moreover have "map catCards (categories readyPage) = [[0], [1], [2, 3]]"
    by (simp add: readyPage_eq)
  ultimately show ?thesis
    using readyPage_titled readyPage_wf readyPage_filter_SIN by (simp add: list_all_iff)
qed

theorem filter_frame_witness:
  "storage (fst (filterListener modelHost (readyPage\<lparr>searchValue := ascii ''SIN''\<rparr>))) = None \<and>
   map derivationContent (formulaCards (fst (filterListener modelHost
        (readyPage\<lparr>searchValue := ascii ''SIN''\<rparr>)))) = [None, None, Some ''block'', None] \<and>
   map exampleContents (formulaCards (fst (filterListener modelHost
        (readyPage\<lparr>searchValue := ascii ''SIN''\<rparr>)))) = [[], [], [], [''block'']] \<and>
   map hidden (formulaCards (fst (filterListener modelHost
        (readyPage\<lparr>searchValue := ascii ''SIN''\<rparr>)))) = [False, True, True, True]"
  using filter_frame [of modelHost "readyPage\<lparr>searchValue := ascii ''SIN''\<rparr>"]
    readyPage_filter_SIN(1)
  by (simp add: readyPage_eq plainCard_def)

lemma readyPage_clear:
  "map hidden (formulaCards (fst (manualClear modelHost
      (fst (typeInput modelHost (ascii ''SIN'') readyPage))))) = [False, False, False, False]"
  "map catHidden (categories (fst (manualClear modelHost
      (fst (typeInput modelHost (ascii ''SIN'') readyPage))))) = [False, False, False]"
  "map hidden (formulaCards (fst (typeInput modelHost (ascii ''SIN'') readyPage)))
     = [False, True, True, True]"
  "searchValue (fst (typeInput modelHost (ascii ''SIN'') readyPage)) = ascii ''SIN''"
  by (simp_all add: readyPage_eq manualClear_def typeInput_def dispatchInput_def runListener_def
        debounceListener_def retypesetListener_def setTimeout_def clearTimeout_def
        filterListener_def filterCard_def Let_def modelHost_def
        asciiLower_def ascii_def headingText_def cardText_def plainCard_def plainHeading_def
        updateCategory_def visibleCards_def iconDown_def iconMemo_def)

theorem escape_clears_like_manual_input_witness:
  "key escapeKey = ascii ''Escape'' \<and>
   searchValue (fst (typeInput modelHost (ascii ''SIN'') readyPage)) \<noteq> [] \<and>
   keydown modelHost escapeKey (fst (typeInput modelHost (ascii ''SIN'') readyPage)) =
     manualClear modelHost (fst (typeInput modelHost (ascii ''SIN'') readyPage)) \<and>
   map hidden (formulaCards (fst (typeInput modelHost (ascii ''SIN'') readyPage)))
     = [False, True, True, True] \<and>
   map hidden (formulaCards (fst (keydown modelHost escapeKey
      (fst (typeInput modelHost (ascii ''SIN'') readyPage))))) = [False, False, False, False]"
proof -
  have k: "key escapeKey = ascii ''Escape''"
    by (simp add: escapeKey_def)
  have v: "searchValue (fst (typeInput modelHost (ascii ''SIN'') readyPage)) \<noteq> []"
    unfolding readyPage_clear(4) by (simp add: ascii_def)
  from escape_clears_like_manual_input [OF k, of "fst (typeInput modelHost (ascii ''SIN'') readyPage)" modelHost] v
  have "keydown modelHost escapeKey (fst (typeInput modelHost (ascii ''SIN'') readyPage)) =
     manualClear modelHost (fst (typeInput modelHost (ascii ''SIN'') readyPage))"
    by blast
  with k v readyPage_clear show ?thesis by simp
qed

section \<open>Collapsible sections\<close>

lemma setupDerivation_expanded:
  "derivationContent c \<noteq> None \<Longrightarrow> derivationContent (fst (setupDerivation c)) = Some ''block''"
  by (auto simp: setupDerivation_def Let_def split: option.splits)

lemma derivation_toggle_roundtrip:
  assumes "derivationContent c \<noteq> None" and "setupDerivation c = (c', None)"
  shows "derivationContent c' = Some ''block'' \<and>
         derivationContent (titleClick c') = Some ''none'' \<and>
         derivationContent (titleClick (titleClick c')) = Some ''block''"
  using assms
  by (auto simp: setupDerivation_def titleClick_def Let_def split: option.splits)

lemma setupExamples_block:
  "snd (setupExamples t ds) = map (\<lambda>d. ''block'') ds"
  by (induction ds arbitrary: t) (auto simp: Let_def case_prod_beta split: option.splits)

lemma setupExamples_no_listener:
  "map_option clickListener (fst (setupExamples t ds)) = map_option clickListener t"
  by (induction ds arbitrary: t) (auto simp: Let_def case_prod_beta split: option.splits)

lemma setupExampleCard_expanded:
  "exampleContents (setupExampleCard c) = map (\<lambda>d. ''block'') (exampleContents c)"
  using setupExamples_block [of "h4 c" "exampleContents c"]
  by (simp add: setupExampleCard_def case_prod_beta)

lemma titleClick_examples: "exampleContents (titleClick c) = exampleContents c"
  by (simp add: titleClick_def split: option.splits)

text \<open>
  Claim C4. The derivation content of a card is expanded by the setup, collapsed by one
  click on the heading and expanded again by the second (\<open>derivation_toggle_roundtrip\<close>).
  The example content is expanded by the setup, but the setup registers no listener for
  it: on the page of the scenario, a click on the heading of the card with the example
  leaves the page as it is, the example still expanded.
\<close>

theorem example_click_does_not_collapse:
  "exampleContents (formulaCards demoPage ! 3) = [[]] \<and>
   exampleContents (formulaCards readyPage ! 3) = [''block''] \<and>
   exampleContents (formulaCards (clickTitle 3 readyPage) ! 3) = [''block''] \<and>
   clickTitle 3 readyPage = readyPage \<and>
   derivationContent (formulaCards (clickTitle 2 readyPage) ! 2) = Some ''none'' \<and>
   derivationContent (formulaCards (clickTitle 2 (clickTitle 2 readyPage)) ! 2) = Some ''block''"
  by (simp add: readyPage_eq demoPage_def clickTitle_def titleClick_def plainCard_def
        plainHeading_def)

section \<open>Timers\<close>

text \<open>
  The history listener cancels the pending history timer before it sets the new one, so
  at most one is pending after every event. The rendering listener only adds a timer.
\<close>

lemma debounceInv_at_most_one:
  assumes "debounceInv p"
  shows "length (filter (\<lambda>t. task t = SaveHistoryTask) (pendingTimers p)) \<le> 1"
proof -
  let ?xs = "filter (\<lambda>t. task t = SaveHistoryTask) (pendingTimers p)"
  from assms have d: "distinct (map timerId ?xs)"
    by (simp add: debounceInv_def distinct_map_filter)
  from assms have e: "\<forall>t\<in>set ?xs. searchTimeout p = Some (timerId t)"
    by (auto simp: debounceInv_def list_all_iff)
  show ?thesis
  proof (cases ?xs)
    case Nil
    then show ?thesis by simp
  next
    case (Cons a ys)
    show ?thesis
    proof (cases ys)
      case Nil
      with Cons show ?thesis by simp
    next
      case (Cons b zs)
      with \<open>?xs = a # ys\<close> d e have False by auto
      then show ?thesis ..
    qed
  qed
qed

lemma debounce_supersedes:
  assumes "debounceInv p"
  shows "filter (\<lambda>t. task t = SaveHistoryTask) (pendingTimers (debounceListener p)) =
           [\<lparr>timerId = nextTimerId p, delay = 1000, task = SaveHistoryTask\<rparr>]"
    and "debounceInv (debounceListener p)"
proof -
  from assms have lt: "\<forall>t\<in>set (pendingTimers p). timerId t < nextTimerId p"
    and sv: "\<forall>t\<in>set (pendingTimers p). task t = SaveHistoryTask \<longrightarrow>
               searchTimeout p = Some (timerId t)"
    and d: "distinct (map timerId (pendingTimers p))"
    by (auto simp: debounceInv_def list_all_iff)
  show "filter (\<lambda>t. task t = SaveHistoryTask) (pendingTimers (debounceListener p)) =
           [\<lparr>timerId = nextTimerId p, delay = 1000, task = SaveHistoryTask\<rparr>]"
  proof (cases "searchTimeout p")
    case None
    with sv have "filter (\<lambda>t. task t = SaveHistoryTask) (pendingTimers p) = []"
      by (auto simp: filter_empty_conv)
    with None show ?thesis
      by (simp add: debounceListener_def setTimeout_def clearTimeout_def)
  next
    case (Some i)
    with sv have "filter (\<lambda>t. task t = SaveHistoryTask)
        (filter (\<lambda>t. timerId t \<noteq> i) (pendingTimers p)) = []"
      by (auto simp: filter_empty_conv)
    with Some show ?thesis
      by (simp add: debounceListener_def setTimeout_def clearTimeout_def)
  qed
  show "debounceInv (debounceListener p)"
    using lt sv d
    by (cases "searchTimeout p")
       (auto simp: debounceInv_def list_all_iff debounceListener_def setTimeout_def
          clearTimeout_def distinct_map_filter)
qed

lemma retypeset_debounceInv: "debounceInv p \<Longrightarrow> debounceInv (retypesetListener p)"
  by (auto simp: debounceInv_def list_all_iff retypesetListener_def setTimeout_def)

lemma filterListener_timers:
  "pendingTimers (fst (filterListener H p)) = pendingTimers p"
  "nextTimerId (fst (filterListener H p)) = nextTimerId p"
  "searchTimeout (fst (filterListener H p)) = searchTimeout p"
  by (simp_all add: filterListener_def Let_def split: prod.splits option.splits)

lemma runListener_debounceInv: "debounceInv p \<Longrightarrow> debounceInv (fst (runListener H l p))"
  by (cases l)
     (simp_all add: runListener_def debounce_supersedes retypeset_debounceInv,
      simp add: debounceInv_def filterListener_timers)

lemma dispatch_debounceInv: "debounceInv p \<Longrightarrow> debounceInv (fst (dispatch H ls p))"
proof (induction ls arbitrary: p)
  case Nil
  then show ?case by simp
next
  case (Cons l ls)
  from Cons.IH [OF runListener_debounceInv [OF Cons.prems, of H l]]
  show ?case by (simp add: case_prod_beta)
qed

lemma typeInput_debounceInv: "debounceInv p \<Longrightarrow> debounceInv (fst (typeInput H v p))"
proof -
  assume "debounceInv p"
  then have "debounceInv (p\<lparr>searchValue := v\<rparr>)" by (simp add: debounceInv_def)
  then show ?thesis
    unfolding typeInput_def dispatchInput_def
    using dispatch_debounceInv [of "p\<lparr>searchValue := v\<rparr>" H "inputListeners p"] by simp
qed

lemma fireTimer_debounceInv: "debounceInv p \<Longrightarrow> debounceInv (fst (fireTimer H i p))"
  by (auto simp: debounceInv_def list_all_iff fireTimer_def runTask_def distinct_map_filter
        split: option.splits task.splits sum.splits)

lemma typeInput_one_history_timer:
  assumes "debounceInv p" 
  shows "length (filter (\<lambda>t. task t = SaveHistoryTask)
           (pendingTimers (fst (typeInput H v p)))) \<le> 1"
  by (rule debounceInv_at_most_one [OF typeInput_debounceInv [OF assms]])

lemma retypeset_keeps_pending:
  "pendingTimers (retypesetListener p) =
     pendingTimers p @ [\<lparr>timerId = nextTimerId p, delay = 100, task = TypesetTask\<rparr>]"
  by (simp add: retypesetListener_def setTimeout_def)

text \<open>
  Claim C5. Two input events in a row leave two rendering timers pending, the first not
  superseded by the second, next to the one history timer of the second event (for the
  history timer the claim holds, \<open>debounce_supersedes\<close>); both rendering timers fire,
  and \<open>typesetPromise\<close> is called twice.
\<close>

theorem retypeset_timers_accumulate:
  "map (\<lambda>t. (timerId t, delay t, task t))
     (pendingTimers (fst (typeInput modelHost (ascii ''si'')
        (fst (typeInput modelHost (ascii ''s'') readyPage))))) =
   [(2, 100, TypesetTask), (3, 1000, SaveHistoryTask), (4, 100, TypesetTask)] \<and>
   typesetCalls (fst (fireTimer modelHost 4 (fst (fireTimer modelHost 2
     (fst (typeInput modelHost (ascii ''si'')
        (fst (typeInput modelHost (ascii ''s'') readyPage)))))))) = 2"
  by (simp add: fireTimer_def runTask_def readyPage_eq typeInput_def dispatchInput_def runListener_def
        debounceListener_def retypesetListener_def setTimeout_def clearTimeout_def
        filterListener_def filterCard_def Let_def modelHost_def
        asciiLower_def ascii_def headingText_def cardText_def plainCard_def plainHeading_def
        updateCategory_def visibleCards_def iconDown_def iconMemo_def)

section \<open>The executable host reads back the arrays of strings it writes\<close>

lemma unat_hexDigit:
  "n < 16 \<Longrightarrow> unat (hexDigit n) = (if n < 10 then 48 + n else 87 + n)"
  by (simp add: hexDigit_def unat_of_nat del: of_nat_add of_nat_numeral)

lemma hexValue_hexDigit: "n < 16 \<Longrightarrow> hexValue (hexDigit n) = Some n"
  by (simp add: hexValue_def word_le_nat_alt unat_hexDigit)

lemma hex_digits_nat:
  assumes "n < 65536"
  shows "(n div 0x1000 mod 0x10) * 0x1000 + (n div 0x100 mod 0x10) * 0x100
     + (n div 0x10 mod 0x10) * 0x10 + n mod 0x10 = (n::nat)"
proof -
  have a: "n = n div 16 * 16 + n mod 16" by simp
  have "n div 256 = n div 16 div 16" by (simp add: div_mult2_eq)
  then have b: "n div 16 = n div 256 * 16 + n div 16 mod 16" by simp
  have "n div 4096 = n div 256 div 16" by (simp add: div_mult2_eq)
  then have c: "n div 256 = n div 4096 * 16 + n div 256 mod 16" by simp
  from assms have "n div 4096 < 16" by simp
  then have d: "n div 4096 mod 16 = n div 4096" by simp
  from a b c d show ?thesis by linarith
qed

lemma unat_lt_16: "unat (u :: 16 word) < 65536"
  using unsigned_less [of u] by simp

lemma hex4_unicodeEscape:
  "hex4 (hexDigit (unat u div 0x1000 mod 0x10)) (hexDigit (unat u div 0x100 mod 0x10))
        (hexDigit (unat u div 0x10 mod 0x10)) (hexDigit (unat u mod 0x10)) = Some u"
proof -
  have "hex4 (hexDigit (unat u div 0x1000 mod 0x10)) (hexDigit (unat u div 0x100 mod 0x10))
        (hexDigit (unat u div 0x10 mod 0x10)) (hexDigit (unat u mod 0x10)) =
        Some (of_nat ((unat u div 0x1000 mod 0x10) * 0x1000 + (unat u div 0x100 mod 0x10) * 0x100
     + (unat u div 0x10 mod 0x10) * 0x10 + unat u mod 0x10))"
    by (simp add: hex4_def hexValue_hexDigit del: of_nat_add of_nat_mult)
  also have "\<dots> = Some (of_nat (unat u))"
    by (simp only: hex_digits_nat [OF unat_lt_16])
  finally show ?thesis by simp
qed


lemma parseChars_unicodeEscape:
  "parseChars (unicodeEscape u @ r) = map_option (\<lambda>(v, r'). (u # v, r')) (parseChars r)"
  by (simp add: unicodeEscape_def hex4_unicodeEscape)

lemma parseChars_short_escapes:
  "parseChars (0x5C # 0x22 # r) = map_option (\<lambda>(v, r'). (0x22 # v, r')) (parseChars r)"
  "parseChars (0x5C # 0x5C # r) = map_option (\<lambda>(v, r'). (0x5C # v, r')) (parseChars r)"
  "parseChars (0x5C # 0x62 # r) = map_option (\<lambda>(v, r'). (0x8 # v, r')) (parseChars r)"
  "parseChars (0x5C # 0x66 # r) = map_option (\<lambda>(v, r'). (0xC # v, r')) (parseChars r)"
  "parseChars (0x5C # 0x6E # r) = map_option (\<lambda>(v, r'). (0xA # v, r')) (parseChars r)"
  "parseChars (0x5C # 0x72 # r) = map_option (\<lambda>(v, r'). (0xD # v, r')) (parseChars r)"
  "parseChars (0x5C # 0x74 # r) = map_option (\<lambda>(v, r'). (0x9 # v, r')) (parseChars r)"
  by (simp_all add: unescape_def)

lemma parseChars_literal:
  "c \<noteq> 0x22 \<Longrightarrow> c \<noteq> 0x5C \<Longrightarrow> \<not> c < 0x20 \<Longrightarrow>
   parseChars (c # r) = map_option (\<lambda>(v, r'). (c # v, r')) (parseChars r)"
  by simp

lemma surrogate_literal:
  "isLeadSurrogate c \<or> isTrailSurrogate c \<Longrightarrow> c \<noteq> 0x22 \<and> c \<noteq> 0x5C \<and> \<not> c < 0x20"
  by (auto simp: isLeadSurrogate_def isTrailSurrogate_def word_le_nat_alt word_less_nat_alt)

lemma parseChars_quote: "parseChars (0x22 # r) = Some ([], r)"
  by simp


lemma quoteChars_special:
  "quoteChars (0x22 # s) = 0x5C # 0x22 # quoteChars s"
  "quoteChars (0x5C # s) = 0x5C # 0x5C # quoteChars s"
  "quoteChars (0x8 # s) = 0x5C # 0x62 # quoteChars s"
  "quoteChars (0xC # s) = 0x5C # 0x66 # quoteChars s"
  "quoteChars (0xA # s) = 0x5C # 0x6E # quoteChars s"
  "quoteChars (0xD # s) = 0x5C # 0x72 # quoteChars s"
  "quoteChars (0x9 # s) = 0x5C # 0x74 # quoteChars s"
  by simp_all

lemma quoteChars_control:
  "c \<noteq> 0x22 \<Longrightarrow> c \<noteq> 0x5C \<Longrightarrow> c \<noteq> 0x8 \<Longrightarrow> c \<noteq> 0xC \<Longrightarrow> c \<noteq> 0xA \<Longrightarrow> c \<noteq> 0xD \<Longrightarrow> c \<noteq> 0x9 \<Longrightarrow>
   c < 0x20 \<Longrightarrow> quoteChars (c # s) = unicodeEscape c @ quoteChars s"
  by simp


lemma not_control:
  "\<not> c < 0x20 \<Longrightarrow> c \<noteq> 0x8 \<and> c \<noteq> 0xC \<and> c \<noteq> 0xA \<and> c \<noteq> 0xD \<and> c \<noteq> (0x9 :: 16 word)"
  by (auto simp: word_less_nat_alt)

lemma quoteChars_lead_lone_Nil:
  "isLeadSurrogate c \<Longrightarrow> quoteChars [c] = unicodeEscape c"
  using surrogate_literal [of c] not_control [of c]
  by simp

lemma quoteChars_lead_lone_Cons:
  "isLeadSurrogate c \<Longrightarrow> \<not> isTrailSurrogate d \<Longrightarrow>
   quoteChars (c # d # s) = unicodeEscape c @ quoteChars (d # s)"
  using surrogate_literal [of c] not_control [of c]
  by (simp del: quoteChars.simps add: quoteChars.simps(2) [of c])

lemma quoteChars_lead_pair:
  "isLeadSurrogate c \<Longrightarrow> isTrailSurrogate d \<Longrightarrow> quoteChars (c # d # s) = c # d # quoteChars s"
  using surrogate_literal [of c]
  by (auto simp: isLeadSurrogate_def isTrailSurrogate_def)

lemma quoteChars_trail_lone:
  "\<not> isLeadSurrogate c \<Longrightarrow> isTrailSurrogate c \<Longrightarrow>
   quoteChars (c # s) = unicodeEscape c @ quoteChars s"
  using surrogate_literal [of c]
  by (auto simp: isTrailSurrogate_def)

lemma quoteChars_literal:
  "c \<noteq> 0x22 \<Longrightarrow> c \<noteq> 0x5C \<Longrightarrow> \<not> c < 0x20 \<Longrightarrow> \<not> isLeadSurrogate c \<Longrightarrow>
   \<not> isTrailSurrogate c \<Longrightarrow> quoteChars (c # s) = c # quoteChars s"
  using not_control [of c] by simp


lemma parseChars_quoteChars: "parseChars (quoteChars s @ 0x22 # r) = Some (s, r)"
proof (induction s rule: length_induct)
  case (1 s)
  then have IH: "parseChars (quoteChars t @ 0x22 # r) = Some (t, r)" if "length t < length s" for t
    using that by blast
  show ?case
  proof (cases s)
    case Nil
    then show ?thesis by simp
  next
    case (Cons c s')
    from IH Cons have tl: "parseChars (quoteChars s' @ 0x22 # r) = Some (s', r)"
      by simp
    show ?thesis
    proof (cases "c = 0x22 \<or> c = 0x5C \<or> c = 0x8 \<or> c = 0xC \<or> c = 0xA \<or> c = 0xD \<or> c = 0x9")
      case True
      with tl show ?thesis
        unfolding Cons
        by (auto simp add: quoteChars_special parseChars_short_escapes
              simp del: parseChars.simps quoteChars.simps)
    next
      case ns: False
      show ?thesis
      proof (cases "c < 0x20")
        case True
        with ns have "quoteChars (c # s') = unicodeEscape c @ quoteChars s'"
          by (simp add: quoteChars_control del: quoteChars.simps)
        with tl show ?thesis
          unfolding Cons
          by (simp add: parseChars_unicodeEscape del: parseChars.simps quoteChars.simps)
      next
        case nc: False
        show ?thesis
        proof (cases "isLeadSurrogate c")
          case lead: True
          show ?thesis
          proof (cases s')
            case Nil
            with lead show ?thesis
              unfolding Cons
              by (simp add: quoteChars_lead_lone_Nil parseChars_unicodeEscape parseChars_quote
                    del: parseChars.simps quoteChars.simps)
          next
            case (Cons d s'')
            show ?thesis
            proof (cases "isTrailSurrogate d")
              case True
              from IH \<open>s = c # s'\<close> Cons
              have "parseChars (quoteChars s'' @ 0x22 # r) = Some (s'', r)"
                by simp
              with lead True surrogate_literal [of c] surrogate_literal [of d] show ?thesis
                unfolding \<open>s = c # s'\<close> Cons
                by (simp add: quoteChars_lead_pair parseChars_literal
                      del: parseChars.simps quoteChars.simps)
            next
              case False
              with lead tl show ?thesis
                unfolding \<open>s = c # s'\<close> Cons
                by (simp add: quoteChars_lead_lone_Cons parseChars_unicodeEscape
                      del: parseChars.simps quoteChars.simps)
            qed
          qed
        next
          case nl: False
          show ?thesis
          proof (cases "isTrailSurrogate c")
            case True
            with nl tl show ?thesis
              unfolding Cons
              by (simp add: quoteChars_trail_lone parseChars_unicodeEscape
                    del: parseChars.simps quoteChars.simps)
          next
            case False
            with nl nc ns tl show ?thesis
              unfolding Cons
              by (simp add: quoteChars_literal parseChars_literal
                    del: parseChars.simps quoteChars.simps)
          qed
        qed
      qed
    qed
  qed
qed


lemma parseValue_string: "parseValue (Suc n) (quoteJSON s @ r) = Some (JString s, r)"
  by (simp add: quoteJSON_def isJsonSpace_def parseChars_quoteChars del: parseChars.simps)

lemma parseElements_strings:
  "length xs \<le> n \<Longrightarrow>
   parseElements (Suc (Suc n)) (joinComma (map quoteJSON (x # xs)) @ 0x5D # r) =
     Some (map JString (x # xs), r)"
proof (induction xs arbitrary: x n)
  case Nil
  show ?case
    by (simp add: parseValue_string isJsonSpace_def del: parseValue.simps)
next
  case (Cons y ys)
  then obtain m where n: "n = Suc m" and m: "length ys \<le> m"
    by (cases n) auto
  from Cons.IH [OF m, of y]
  show ?case
    unfolding n
    by (simp add: parseValue_string isJsonSpace_def del: parseValue.simps)
qed

lemma length_joinComma_quoteJSON: "length xs \<le> length (joinComma (map quoteJSON xs))"
  by (induction xs rule: induct_list012) (auto simp: quoteJSON_def)

lemma parseValue_array:
  "parseValue (Suc n) (0x5B # 0x22 # b) =
     map_option (\<lambda>(vs, r'). (JArray vs, r')) (parseElements n (0x22 # b))"
  by (simp add: isJsonSpace_def del: parseElements.simps)

lemma parseJSON_strings:
  "parseJSON (stringifyJSON (JArray (map JString h))) = Some (JArray (map JString h))"
proof (cases h)
  case Nil
  then show ?thesis
    by (simp add: parseJSON_def isJsonSpace_def)
next
  case (Cons x xs)
  let ?body = "joinComma (map quoteJSON (x # xs))"
  have str: "stringifyJSON (JArray (map JString h)) = 0x5B # ?body @ [0x5D]"
    by (simp add: Cons comp_def)
  obtain b where body: "?body = 0x22 # b"
    by (cases xs) (auto simp: quoteJSON_def)
  have n: "length xs \<le> length ?body"
    using length_joinComma_quoteJSON [of "x # xs"] by simp
  have "parseValue (Suc (length (0x5B # ?body @ [0x5D]))) (0x5B # ?body @ [0x5D]) =
          map_option (\<lambda>(vs, r'). (JArray vs, r'))
            (parseElements (Suc (Suc (length ?body))) (?body @ [0x5D]))"
    using parseValue_array [of "Suc (Suc (length ?body))" "b @ [0x5D]"]
    by (simp only: body append_Cons length_Cons length_append list.size add_Suc_right
          add_0_right)
  also have "\<dots> = Some (JArray (map JString (x # xs)), [])"
    using parseElements_strings [OF n, of x "[]"] by simp
  finally show ?thesis
    unfolding parseJSON_def str by (simp add: Cons)
qed

lemma modelHost_reads_back:
  "loadHistory modelHost (Some (JSON_stringify modelHost (JArray (map JString h)))) =
     Inr (JArray (map JString h))"
  using parseJSON_strings [of h]
  by (simp add: loadHistory_def modelHost_def)

section \<open>The search history\<close>

lemma loadHistory_cases:
  "loadHistory H None = Inr (JArray [])"
  "loadHistory H (Some []) = Inr (JArray [])"
  "s \<noteq> [] \<Longrightarrow> JSON_parse H s = None \<Longrightarrow> loadHistory H (Some s) = Inl SyntaxError"
  "s \<noteq> [] \<Longrightarrow> JSON_parse H s = Some v \<Longrightarrow> loadHistory H (Some s) = Inr v"
  by (simp_all add: loadHistory_def)

lemma saveHistory_array:
  assumes "trim term \<noteq> []" and "loadHistory H item = Inr (JArray h)"
  shows "saveHistory H term item = Inr (Some (JSON_stringify H (JArray (specSave term h))))"
proof -
  have "filter (\<lambda>x. x \<noteq> JString term) h = removeAll (JString term) h"
    by (induction h) auto
  with assms show ?thesis
    by (simp add: saveHistory_def specSave_def MAX_HISTORY_def Let_def)
qed

lemma specSave_props:
  "length (specSave term h) \<le> 10"
  "hd (specSave term h) = JString term"
  "count_list (specSave term h) (JString term) = 1"
  "tl (specSave term h) = take 9 (removeAll (JString term) h)"
  "distinct h \<Longrightarrow> distinct (specSave term h)"
  "specSave term (specSave term h) = specSave term h"
proof -
  have notin: "x \<notin> set (take n (removeAll x xs))" for n and x :: "'a json" and xs
    by (auto dest: in_set_takeD)
  have c: "count_list (take n (removeAll x xs)) x = 0" for n and x :: "'a json" and xs
    using notin [of x n xs] by (simp add: count_list_0_iff)
  show "length (specSave term h) \<le> 10" by (simp add: specSave_def)
  show "hd (specSave term h) = JString term" by (simp add: specSave_def take_Cons')
  show "count_list (specSave term h) (JString term) = 1"
    using c [of 9 "JString term" h] by (simp add: specSave_def take_Cons')
  show "tl (specSave term h) = take 9 (removeAll (JString term) h)"
    by (simp add: specSave_def take_Cons')
  show "distinct (specSave term h)" if "distinct h"
    using that by (auto simp: specSave_def take_Cons' distinct_removeAll dest: in_set_takeD)
  have "removeAll x (take n (removeAll x xs)) = take n (removeAll x xs)"
    for n and x :: "'a json" and xs
    using notin [of x n xs] by (rule removeAll_id)
  then show "specSave term (specSave term h) = specSave term h"
    by (simp add: specSave_def take_Cons')
qed


lemma saveAll_append:
  "saveAll H (ts @ us) item =
     (case saveAll H ts item of Inl e \<Rightarrow> Inl e | Inr item' \<Rightarrow> saveAll H us item')"
  by (induction ts arbitrary: item) (auto split: sum.splits)

lemma take_filter_take:
  "distinct xs \<Longrightarrow>
   take n (filter (\<lambda>x. x \<noteq> t) (take (Suc n) xs)) = take n (filter (\<lambda>x. x \<noteq> t) xs)"
proof (induction xs arbitrary: n)
  case Nil
  then show ?case by simp
next
  case (Cons a xs)
  show ?case
  proof (cases "a = t")
    case True
    with Cons.prems have "t \<notin> set xs" by simp
    then have "filter (\<lambda>x. x \<noteq> t) xs = xs" "filter (\<lambda>x. x \<noteq> t) (take n xs) = take n xs"
      by (auto simp: filter_id_conv dest: in_set_takeD)
    with True show ?thesis by simp
  next
    case False
    with Cons show ?thesis by (cases n) auto
  qed
qed

lemma recentTerms_snoc:
  "recentTerms (ts @ [t]) = take 10 (t # filter (\<lambda>x. x \<noteq> t) (recentTerms ts))"
proof -
  have "remdups (ts @ [t]) = filter (\<lambda>x. x \<noteq> t) (remdups ts) @ [t]"
    by (induction ts) auto
  then have "recentTerms (ts @ [t]) = t # take 9 (filter (\<lambda>x. x \<noteq> t) (rev (remdups ts)))"
    by (simp add: recentTerms_def rev_filter take_Cons')
  also have "\<dots> = t # take 9 (filter (\<lambda>x. x \<noteq> t) (take 10 (rev (remdups ts))))"
    using take_filter_take [of "rev (remdups ts)" 9 t] by simp
  finally show ?thesis by (simp add: recentTerms_def take_Cons')
qed

lemma specSave_strings:
  "specSave t (map JString xs) = map JString (take 10 (t # filter (\<lambda>x. x \<noteq> t) xs))"
proof -
  have r: "removeAll (JString t) (map JString xs) = map JString (filter (\<lambda>x. x \<noteq> t) xs)"
    by (induction xs) auto
  show ?thesis unfolding specSave_def r by (simp add: take_map take_Cons')
qed

lemma recentTerms_props:
  "length (recentTerms ts) \<le> 10"
  "distinct (recentTerms ts)"
  "set (recentTerms ts) \<subseteq> set ts"
  "ts \<noteq> [] \<Longrightarrow> hd (recentTerms ts) = last ts"
  "distinct ts \<Longrightarrow> length ts = 11 \<Longrightarrow> recentTerms ts = rev (tl ts)"
proof -
  show "length (recentTerms ts) \<le> 10" by (simp add: recentTerms_def)
  show "distinct (recentTerms ts)" by (simp add: recentTerms_def distinct_take)
  show "set (recentTerms ts) \<subseteq> set ts"
    by (auto simp: recentTerms_def dest: in_set_takeD)
  show "hd (recentTerms ts) = last ts" if "ts \<noteq> []"
  proof -
    from that obtain us u where "ts = us @ [u]" by (metis rev_exhaust)
    then show ?thesis by (simp add: recentTerms_snoc)
  qed
  show "recentTerms ts = rev (tl ts)" if "distinct ts" "length ts = 11"
  proof -
    from that have "recentTerms ts = take 10 (rev ts)"
      by (simp add: recentTerms_def distinct_remdups_id)
    also have "\<dots> = rev (drop 1 ts)"
      using that(2) by (simp add: take_rev)
    finally show ?thesis by (simp add: drop_Suc)
  qed
qed

lemma saveAll_recent:
  fixes H :: "'n host"
  assumes rb: "\<And>h. loadHistory H (Some (JSON_stringify H (JArray (map JString h)))) =
                 Inr (JArray (map JString h))"
    and ne: "\<forall>t\<in>set ts. trim t \<noteq> []"
  shows "\<exists>item. saveAll H ts None = Inr item \<and>
           loadHistory H item = Inr (JArray (map JString (recentTerms ts)))"
  using ne
proof (induction ts rule: rev_induct)
  case Nil
  show ?case by (simp add: loadHistory_def recentTerms_def)
next
  case (snoc t ts)
  then obtain item where item: "saveAll H ts None = Inr item"
    and load: "loadHistory H item = Inr (JArray (map JString (recentTerms ts)))"
    by auto
  from snoc.prems have "trim t \<noteq> []" by simp
  from saveHistory_array [OF this load]
  have "saveHistory H t item =
          Inr (Some (JSON_stringify H (JArray (map JString (recentTerms (ts @ [t]))))))"
    by (simp add: specSave_strings recentTerms_snoc)
  with item rb show ?case
    by (simp add: saveAll_append)
qed

text \<open>
  Claim C2. \<open>saveHistory\<close> leaves the stored item as it is when the term is empty
  after trimming. Otherwise, when the stored history loads as a list, it stores the list
  the specification describes (\<open>specSave\<close>: the occurrences of the term removed, the term
  in front, the first ten kept), in which the term occurs once; and when the host reads
  that stored text back, saving the same term a second time stores the same list again.
\<close>

theorem saveHistory_behaviour:
  fixes H :: "'n host"
  shows
  "(trim term = [] \<longrightarrow> saveHistory H term item = Inr item) \<and>
   (trim term \<noteq> [] \<longrightarrow> loadHistory H item = Inr (JArray h) \<longrightarrow>
      saveHistory H term item = Inr (Some (JSON_stringify H (JArray (specSave term h)))) \<and>
      count_list (specSave term h) (JString term) = 1 \<and>
      (loadHistory H (Some (JSON_stringify H (JArray (specSave term h)))) =
         Inr (JArray (specSave term h)) \<longrightarrow>
       saveAll H [term, term] item =
         Inr (Some (JSON_stringify H (JArray (specSave term h))))))"
proof (intro conjI impI)
  show "saveHistory H term item = Inr item" if "trim term = []"
    using that by (simp add: saveHistory_def)
next
  assume t: "trim term \<noteq> []" and l: "loadHistory H item = Inr (JArray h)"
  show "count_list (specSave term h) (JString term) = 1"
    by (rule specSave_props)
  show s1: "saveHistory H term item = Inr (Some (JSON_stringify H (JArray (specSave term h))))"
    by (rule saveHistory_array [OF t l])
  assume "loadHistory H (Some (JSON_stringify H (JArray (specSave term h)))) =
         Inr (JArray (specSave term h))"
  from saveHistory_array [OF t this] s1
  show "saveAll H [term, term] item =
         Inr (Some (JSON_stringify H (JArray (specSave term h))))"
    by (simp add: specSave_props)
qed

lemma trim_examples:
  "trim (ascii ''x'') = ascii ''x''" "trim (ascii ''  '') = []"
  "trim (ascii '' sin x '') = ascii ''sin x''"
  by (simp_all add: trim_def ascii_def isWhiteSpace_def)

theorem saveHistory_behaviour_witness:
  "trim (ascii ''  '') = [] \<and>
   saveHistory modelHost (ascii ''  '') (Some (ascii ''[]'')) = Inr (Some (ascii ''[]'')) \<and>
   trim (ascii ''x'') \<noteq> [] \<and>
   loadHistory modelHost None = Inr (JArray []) \<and>
   specSave (ascii ''x'') [] = [JString (ascii ''x'') :: jsstring json] \<and>
   loadHistory modelHost (Some (JSON_stringify modelHost (JArray [JString (ascii ''x'')]))) =
     Inr (JArray [JString (ascii ''x'')]) \<and>
   saveHistory modelHost (ascii ''x'') None = Inr (Some [0x5B, 0x22, 0x78, 0x22, 0x5D]) \<and>
   saveAll modelHost [ascii ''x'', ascii ''x''] None = Inr (Some [0x5B, 0x22, 0x78, 0x22, 0x5D])"
proof -
  have e: "trim (ascii ''  '') = []" and x: "trim (ascii ''x'') \<noteq> []"
    by (simp_all add: trim_examples) (simp add: ascii_def)
  have l: "loadHistory modelHost None = Inr (JArray [])"
    by (simp add: loadHistory_def)
  have sp: "specSave (ascii ''x'') [] = [JString (ascii ''x'') :: jsstring json]"
    by (simp add: specSave_def)
  have rb: "loadHistory modelHost
              (Some (JSON_stringify modelHost (JArray (specSave (ascii ''x'') [])))) =
            Inr (JArray (specSave (ascii ''x'') []))"
    using modelHost_reads_back [of "[ascii ''x'']"] by (simp add: sp)
  have str: "JSON_stringify modelHost (JArray [JString (ascii ''x'')]) =
               [0x5B, 0x22, 0x78, 0x22, 0x5D]"
    by (simp add: modelHost_def quoteJSON_def ascii_def isLeadSurrogate_def
          isTrailSurrogate_def)
  from saveHistory_behaviour [of "ascii ''  ''" modelHost "Some (ascii ''[]'')"] e
  have a: "saveHistory modelHost (ascii ''  '') (Some (ascii ''[]'')) = Inr (Some (ascii ''[]''))"
    by blast
  from saveHistory_behaviour [of "ascii ''x''" modelHost None "[]"] x l rb
  have b: "saveHistory modelHost (ascii ''x'') None =
             Inr (Some (JSON_stringify modelHost (JArray (specSave (ascii ''x'') []))))"
    and c: "saveAll modelHost [ascii ''x'', ascii ''x''] None =
             Inr (Some (JSON_stringify modelHost (JArray (specSave (ascii ''x'') []))))"
    by blast+
  from a b c e x l rb show ?thesis
    unfolding sp str by simp
qed

text \<open>
  Claim C3. One save keeps the invariant: from a loaded list of at most ten distinct
  elements it stores a list of at most ten distinct elements, the term first and the
  former elements behind it in their former order. On a host that reads back the arrays of
  strings it writes, the saves of the terms \<open>ts\<close> from an empty store leave
  \<open>recentTerms ts\<close>: at most ten terms, distinct, the last saved first; after eleven
  distinct terms these are the last ten, the first one evicted.
\<close>

theorem history_invariant:
  fixes H :: "'n host"
  shows
  "(trim term \<noteq> [] \<longrightarrow> loadHistory H item = Inr (JArray h) \<longrightarrow> length h \<le> 10 \<longrightarrow> distinct h \<longrightarrow>
      (\<exists>h'. saveHistory H term item = Inr (Some (JSON_stringify H (JArray h'))) \<and>
            length h' \<le> 10 \<and> distinct h' \<and> hd h' = JString term \<and>
            tl h' = take 9 (removeAll (JString term) h))) \<and>
   ((\<forall>h. loadHistory H (Some (JSON_stringify H (JArray (map JString h)))) =
            Inr (JArray (map JString h))) \<longrightarrow>
    (\<forall>t\<in>set ts. trim t \<noteq> []) \<longrightarrow>
      (\<exists>item. saveAll H ts None = Inr item \<and>
              loadHistory H item = Inr (JArray (map JString (recentTerms ts)))) \<and>
      length (recentTerms ts) \<le> 10 \<and> distinct (recentTerms ts) \<and>
      (ts \<noteq> [] \<longrightarrow> hd (recentTerms ts) = last ts) \<and>
      (distinct ts \<longrightarrow> length ts = 11 \<longrightarrow> recentTerms ts = rev (tl ts)))"
proof (intro conjI impI)
  assume a: "trim term \<noteq> []" "loadHistory H item = Inr (JArray h)"
    and b: "length h \<le> 10" "distinct h"
  from b have "length (specSave term h) \<le> 10" "hd (specSave term h) = JString term"
    "tl (specSave term h) = take 9 (removeAll (JString term) h)" "distinct (specSave term h)"
    by (simp_all add: specSave_props)
  with saveHistory_array [OF a]
  show "\<exists>h'. saveHistory H term item = Inr (Some (JSON_stringify H (JArray h'))) \<and>
            length h' \<le> 10 \<and> distinct h' \<and> hd h' = JString term \<and>
            tl h' = take 9 (removeAll (JString term) h)"
    by blast
next
  assume "\<forall>h. loadHistory H (Some (JSON_stringify H (JArray (map JString h)))) =
            Inr (JArray (map JString h))" "\<forall>t\<in>set ts. trim t \<noteq> []"
  then show "\<exists>item. saveAll H ts None = Inr item \<and>
              loadHistory H item = Inr (JArray (map JString (recentTerms ts)))"
    using saveAll_recent [of H ts] by blast
qed (simp_all add: recentTerms_props)

theorem history_invariant_witness:
  "list_all (\<lambda>t. trim t \<noteq> []) elevenTerms \<and> distinct elevenTerms \<and> length elevenTerms = 11 \<and>
   (\<exists>item. saveAll modelHost elevenTerms None = Inr item \<and>
       loadHistory modelHost item =
         Inr (JArray (map JString
           (map ascii [''k'', ''j'', ''i'', ''h'', ''g'', ''f'', ''e'', ''d'', ''c'', ''b''])))) \<and>
   (\<exists>h'. saveHistory modelHost (ascii ''x'') None =
             Inr (Some (JSON_stringify modelHost (JArray h'))) \<and>
          length h' \<le> 10 \<and> distinct h' \<and> hd h' = JString (ascii ''x''))"
proof -
  have ne: "\<forall>t\<in>set elevenTerms. trim t \<noteq> []"
    by (simp add: elevenTerms_def trim_def ascii_def isWhiteSpace_def)
  have d: "distinct elevenTerms" and l: "length elevenTerms = 11"
    by (simp_all add: elevenTerms_def ascii_def)
  have rb: "\<forall>h. loadHistory modelHost (Some (JSON_stringify modelHost (JArray (map JString h)))) =
            Inr (JArray (map JString h))"
    by (simp add: modelHost_reads_back)
  have x: "trim (ascii ''x'') \<noteq> []"
    by (simp add: trim_examples) (simp add: ascii_def)
  have l0: "loadHistory modelHost None = Inr (JArray [])"
    by (simp add: loadHistory_def)
  note T = history_invariant [of _ modelHost _ _ elevenTerms]
  from T rb ne d l
  have r: "recentTerms elevenTerms = rev (tl elevenTerms)"
    and s: "\<exists>item. saveAll modelHost elevenTerms None = Inr item \<and>
              loadHistory modelHost item = Inr (JArray (map JString (recentTerms elevenTerms)))"
    by blast+
  have tl: "rev (tl elevenTerms) =
      map ascii [''k'', ''j'', ''i'', ''h'', ''g'', ''f'', ''e'', ''d'', ''c'', ''b'']"
    by (simp add: elevenTerms_def)
  from history_invariant [of "ascii ''x''" modelHost None "[]"] x l0
  have "\<exists>h'. saveHistory modelHost (ascii ''x'') None =
             Inr (Some (JSON_stringify modelHost (JArray h'))) \<and>
          length h' \<le> 10 \<and> distinct h' \<and> hd h' = JString (ascii ''x'')"
    by auto
  with s ne d l show ?thesis
    unfolding r tl by (simp add: list_all_iff)
qed

text \<open>
  Claim C8, amended. \<open>loadHistory\<close> returns the empty list when nothing is stored and
  when the empty string is stored; a stored text that is not empty and that
  \<open>JSON.parse\<close> rejects makes it throw SyntaxError.
\<close>

theorem loadHistory_results:
  "loadHistory H None = Inr (JArray []) \<and> loadHistory H (Some []) = Inr (JArray []) \<and>
   (s \<noteq> [] \<longrightarrow> JSON_parse H s = None \<longrightarrow> loadHistory H (Some s) = Inl SyntaxError)"
  by (simp add: loadHistory_def)

lemma parse_examples:
  "JSON_parse modelHost [] = None"
  "JSON_parse modelHost (ascii ''[x'') = None"
  "JSON_parse modelHost (ascii ''42'') = Some (JNumber (ascii ''42''))"
  "JSON_parse modelHost (ascii ''{}'') = Some (JObject [])"
  "JSON_parse modelHost (ascii ''null'') = Some JNull"
  by (simp_all add: modelHost_def parseJSON_def ascii_def isJsonSpace_def parseNumber_def
        isDigit_def Let_def)

theorem loadHistory_results_witness:
  "ascii ''[x'' \<noteq> [] \<and> JSON_parse modelHost (ascii ''[x'') = None \<and>
   loadHistory modelHost (Some (ascii ''[x'')) = Inl SyntaxError \<and>
   loadHistory modelHost None = Inr (JArray [])"
  using loadHistory_results [of modelHost "ascii ''[x''"] parse_examples(2)
  by (simp add: ascii_def)

text \<open>
  Claim C8 as stated fails for the stored empty string: it is present and no JSON text,
  and \<open>loadHistory\<close> returns the empty list.
\<close>

theorem load_malformed_counterexample:
  "JSON_parse modelHost [] = None \<and> loadHistory modelHost (Some []) = Inr (JArray []) \<and>
   loadHistory modelHost (Some []) \<noteq> Inl SyntaxError"
  by (simp add: parse_examples loadHistory_def)

text \<open>
  Claim C10. Whatever value \<open>JSON.parse\<close> returns for the stored text, \<open>loadHistory\<close>
  returns it as it is: a number or an object as well as an array.
\<close>

theorem loadHistory_no_shape_check:
  "s \<noteq> [] \<Longrightarrow> JSON_parse H s = Some v \<Longrightarrow> loadHistory H (Some s) = Inr v"
  by (simp add: loadHistory_def)

theorem loadHistory_no_shape_check_witness:
  "ascii ''42'' \<noteq> [] \<and> JSON_parse modelHost (ascii ''42'') = Some (JNumber (ascii ''42'')) \<and>
   loadHistory modelHost (Some (ascii ''42'')) = Inr (JNumber (ascii ''42'')) \<and>
   loadHistory modelHost (Some (ascii ''{}'')) = Inr (JObject []) \<and>
   saveHistory modelHost (ascii ''x'') (Some (ascii ''42'')) = Inl TypeError"
proof -
  have n: "ascii ''42'' \<noteq> []" "ascii ''{}'' \<noteq> []" by (simp_all add: ascii_def)
  from loadHistory_no_shape_check [OF n(1) parse_examples(3)]
       loadHistory_no_shape_check [OF n(2) parse_examples(4)]
  have l: "loadHistory modelHost (Some (ascii ''42'')) = Inr (JNumber (ascii ''42''))"
    "loadHistory modelHost (Some (ascii ''{}'')) = Inr (JObject [])"
    by simp_all
  have "trim (ascii ''x'') \<noteq> []"
    by (simp add: trim_examples) (simp add: ascii_def)
  with l(1) have "saveHistory modelHost (ascii ''x'') (Some (ascii ''42'')) = Inl TypeError"
    by (simp add: saveHistory_def)
  with l n parse_examples(3) show ?thesis by simp
qed

end
